theory Spec2Isabelle
  imports Main "HOL-Library.Sublist"
begin

section \<open>JavaScript values\<close>

text \<open>
  The component is written against \<^verbatim>\<open>any\<close>: candidates, the model and the bound value
  are arbitrary JavaScript values. The model keeps the primitive kinds the code
  distinguishes (through \<^verbatim>\<open>typeof\<close>, truthiness and \<^verbatim>\<open>===\<close>) and objects as
  references, so that HOL equality on \<open>jsval\<close> is the strict equality \<^verbatim>\<open>===\<close> of the
  source: two objects are equal exactly when they are the same object. Numbers are the
  integer-valued ones (no NaN, no fractions); strings are ASCII.
\<close>

type_synonym ref = nat

datatype jsval =
    JUndefined
  | JNull
  | JBool bool
  | JNum int
  | JStr string
  | JObj ref

text \<open>The fields of the objects a reference stands for.\<close>

type_synonym heap = "ref \<Rightarrow> (string \<times> jsval) list"

fun typeof :: "jsval \<Rightarrow> string" where
  "typeof JUndefined = ''undefined''"
| "typeof JNull = ''object''"
| "typeof (JBool b) = ''boolean''"
| "typeof (JNum n) = ''number''"
| "typeof (JStr s) = ''string''"
| "typeof (JObj r) = ''object''"

text \<open>Truthiness, as \<^verbatim>\<open>if (v)\<close> and \<^verbatim>\<open>!v\<close> read a value.\<close>

fun truthy :: "jsval \<Rightarrow> bool" where
  "truthy JUndefined = False"
| "truthy JNull = False"
| "truthy (JBool b) = b"
| "truthy (JNum n) = (n \<noteq> 0)"
| "truthy (JStr s) = (s \<noteq> [])"
| "truthy (JObj r) = True"

datatype error =
    ServiceNotDefinedPrefetch
    \<comment> \<open>\<^verbatim>\<open>Error("Service for prefetch is not defined in 'Source'")\<close>\<close>
  | ServiceNotDefinedFetch
    \<comment> \<open>\<^verbatim>\<open>Error("Service for fetch is not defined in 'Source'")\<close>\<close>
  | DisplayNotProvided
    \<comment> \<open>\<^verbatim>\<open>Error("You must provide displayItem or displayItemFn for local search.")\<close>\<close>
  | DisplayItemWrong
    \<comment> \<open>\<^verbatim>\<open>Error("String to evaluate in displayItem was provided wrong. Better use displayItemFn")\<close>\<close>
  | TypeError
    \<comment> \<open>raised by the runtime: a property read on null or undefined, a call of a missing method\<close>
  | EvalError
    \<comment> \<open>anything else \<^verbatim>\<open>eval\<close> raises (a syntax or reference error of the expression)\<close>

text \<open>\<^verbatim>\<open>item.name\<close>: a property read raises on null and undefined, primitives have no
  property \<^verbatim>\<open>name\<close>, an object has it or yields undefined.\<close>

fun item_name :: "heap \<Rightarrow> jsval \<Rightarrow> error + jsval" where
  "item_name h JUndefined = Inl TypeError"
| "item_name h JNull = Inl TypeError"
| "item_name h (JObj r) = (case map_of (h r) ''name'' of None \<Rightarrow> Inr JUndefined | Some v \<Rightarrow> Inr v)"
| "item_name h v = Inr JUndefined"

text \<open>
  What the component needs from the JavaScript runtime: the objects, and the meaning of
  \<^verbatim>\<open>eval(this.displayItem)\<close> with \<^verbatim>\<open>item\<close> in scope. The expression is any program text, so its
  evaluation is a parameter of the model; it may raise.
\<close>

record js_env =
  heap :: heap
  js_eval :: "string \<Rightarrow> jsval \<Rightarrow> error + jsval"

subsection \<open>Strings\<close>

definition lower_char :: "char \<Rightarrow> char" where
  "lower_char c =
     (let n = (of_char c :: nat) in if 65 \<le> n \<and> n \<le> 90 then char_of (n + 32) else c)"

definition toLowerCase :: "string \<Rightarrow> string" where
  "toLowerCase s = map lower_char s"

text \<open>\<^verbatim>\<open>v.toLowerCase()\<close> on a value: only strings have the method.\<close>

fun toLowerCase_val :: "jsval \<Rightarrow> error + string" where
  "toLowerCase_val (JStr s) = Inr (toLowerCase s)"
| "toLowerCase_val v = Inl TypeError"

text \<open>\<^verbatim>\<open>s.indexOf(q)\<close>: the first position at which \<open>q\<close> occurs in \<open>s\<close>, or -1.\<close>

fun indexOf_from :: "string \<Rightarrow> string \<Rightarrow> nat \<Rightarrow> int" where
  "indexOf_from [] q i = (if q = [] then int i else - 1)"
| "indexOf_from (c # cs) q i =
     (if prefix q (c # cs) then int i else indexOf_from cs q (Suc i))"

definition indexOf :: "string \<Rightarrow> string \<Rightarrow> int" where
  "indexOf s q = indexOf_from s q 0"

section \<open>The component\<close>

type_synonym service = nat

text \<open>\<^verbatim>\<open>HttpParams\<close>, an immutable bag of parameters: \<^verbatim>\<open>set\<close> returns the updated bag.\<close>

type_synonym http_params = "string \<rightharpoonup> string"

definition params_set :: "http_params \<Rightarrow> string \<Rightarrow> string \<Rightarrow> http_params" where
  "params_set p k v = p(k \<mapsto> v)"

text \<open>A call of \<^verbatim>\<open>service.fetch(params)\<close> whose promise has not resolved yet; the constructor
  records which \<^verbatim>\<open>then\<close> callback waits for it.\<close>

datatype request =
    PrefetchCall service http_params
  | FetchCall service http_params

text \<open>What the component sends out: its three event emitters, and the reset of the host's
  form control.\<close>

datatype notification =
    ModelChange jsval
  | OptionSelected jsval
  | CreateNew jsval
  | FormControlReset

text \<open>
  The fields of \<^verbatim>\<open>AutocompleteComponent\<close> that the dispatch logic reads or writes.
  \<open>None\<close> stands for \<^verbatim>\<open>undefined\<close> in the optional fields. \<open>noSuggestions\<close> is declared
  without a value and only read for its truthiness, so undefined is \<open>False\<close>.
  \<open>boundValue\<close> is the \<^verbatim>\<open>value\<close> and \<open>formControlItem\<close> the form control (present or not) of
  the base class \<^verbatim>\<open>AbstractValueAccessor\<close>; \<open>inputValue\<close> is
  \<^verbatim>\<open>autocompleteInput.nativeElement.value\<close>, the text in the input element; \<open>pending\<close> are the
  promises of the service that have not resolved, \<open>emitted\<close> the outputs so far.
  A display function is taken to be what its type says, a function from candidates to
  strings; the result transform \<open>filterCallback\<close> yields a list or nothing
  (\<^verbatim>\<open>undefined\<close> or \<^verbatim>\<open>null\<close>). The handlers that only write the input element
  (\<^verbatim>\<open>onBlur\<close>, \<^verbatim>\<open>onCreateNew\<close>, \<^verbatim>\<open>ngAfterViewInit\<close>) are covered by the event that sets its text.
\<close>

record component =
  doPrefetch :: bool
  displayItem :: "string option"
  minChars :: int
  clearAfterSearch :: bool
  serviceParams :: "http_params option"
  displayItemFn :: "(jsval \<Rightarrow> string) option"
  filterCallback :: "jsval list \<Rightarrow> jsval list option"
  currentModel :: jsval
  query :: string
  autocompleteList :: "jsval list option"
  noSuggestions :: bool
  requestsInQueue :: int
  storedItems :: "jsval list option"
  service :: "service option"
  returnType :: "string option"
  boundValue :: jsval
  formControlItem :: bool
  inputValue :: string
  pending :: "request list"
  emitted :: "notification list"

text \<open>A call either returns the updated component or throws; what was written before the
  throw stays written, so the error comes with the component as it was left.\<close>

type_synonym outcome = "(error \<times> component) + component"

definition state_of :: "outcome \<Rightarrow> component" where
  "state_of r = (case r of Inl (e, s) \<Rightarrow> s | Inr s \<Rightarrow> s)"

definition error_of :: "outcome \<Rightarrow> error option" where
  "error_of r = (case r of Inl (e, s) \<Rightarrow> Some e | Inr s \<Rightarrow> None)"

definition saveReturnType :: "component \<Rightarrow> jsval list option \<Rightarrow> component" where
  "saveReturnType s items =
     (case items of
        None \<Rightarrow> s
      | Some xs \<Rightarrow> (case xs of [] \<Rightarrow> s | x # rest \<Rightarrow> s\<lparr>returnType := Some (typeof x)\<rparr>))"

datatype source_value = SourceService service | SourceArray "jsval list"

definition set_source :: "component \<Rightarrow> source_value \<Rightarrow> component" where
  "set_source s v =
     (case v of
        SourceService svc \<Rightarrow> s\<lparr>service := Some svc\<rparr>
      | SourceArray xs \<Rightarrow>
          (let s1 = s\<lparr>storedItems := Some xs\<rparr> in saveReturnType s1 (storedItems s1)))"

definition emit :: "component \<Rightarrow> notification \<Rightarrow> component" where
  "emit s n = s\<lparr>emitted := emitted s @ [n]\<rparr>"

definition set_model :: "component \<Rightarrow> jsval \<Rightarrow> component" where
  "set_model s v =
     (if v \<noteq> currentModel s then
        (let s1 = s\<lparr>currentModel := v\<rparr> in
         if v = JNull \<or> returnType s1 = Some (typeof v) then emit s1 (ModelChange v) else s1)
      else s)"

text \<open>
  \<^verbatim>\<open>prefetch()\<close>. The call of \<^verbatim>\<open>service.fetch(params)\<close> returns a promise: the request joins
  \<open>pending\<close>, and \<open>prefetch_then\<close> is the callback that runs when it resolves with
  \<open>result\<close>.
\<close>

definition prefetch :: "component \<Rightarrow> outcome" where
  "prefetch s =
     (case service s of
        None \<Rightarrow> Inl (ServiceNotDefinedPrefetch, s)
      | Some svc \<Rightarrow>
          (let s1 = s\<lparr>storedItems := Some []\<rparr>;
               s2 = s1\<lparr>noSuggestions := False\<rparr>;
               params = (case serviceParams s2 of Some p \<Rightarrow> p | None \<Rightarrow> Map.empty)
           in Inr (s2\<lparr>pending := pending s2 @ [PrefetchCall svc params]\<rparr>)))"

definition prefetch_then :: "component \<Rightarrow> jsval list \<Rightarrow> component" where
  "prefetch_then s result =
     (let s1 = s\<lparr>storedItems := filterCallback s result\<rparr>;
          s2 = s1\<lparr>noSuggestions := (length result = 0)\<rparr>
      in saveReturnType s2 (storedItems s2))"

definition ngOnInit :: "component \<Rightarrow> outcome" where
  "ngOnInit s = (if doPrefetch s then prefetch s else Inr s)"

definition isQueryEmpty :: "string \<Rightarrow> bool" where
  "isQueryEmpty q = (int (length q) \<le> 0)"

text \<open>\<^verbatim>\<open>fetch(force?)\<close>; an omitted \<^verbatim>\<open>force\<close> is \<open>False\<close>. \<open>fetch_then\<close> is its callback.\<close>

definition fetch :: "component \<Rightarrow> bool \<Rightarrow> outcome" where
  "fetch s force =
     (case service s of
        None \<Rightarrow> Inl (ServiceNotDefinedFetch, s)
      | Some svc \<Rightarrow>
          (let s1 = s\<lparr>query := inputValue s\<rparr> in
           if isQueryEmpty (query s1) then Inr (s1\<lparr>autocompleteList := Some []\<rparr>)
           else if force \<or> minChars s1 \<le> int (length (query s1)) then
             (let params0 = params_set Map.empty ''query'' (query s1);
                  params = (case serviceParams s1 of
                              Some p \<Rightarrow> params_set p ''query'' (query s1)
                            | None \<Rightarrow> params0);
                  s2 = s1\<lparr>noSuggestions := False\<rparr>;
                  s3 = s2\<lparr>requestsInQueue := requestsInQueue s2 + 1\<rparr>
              in Inr (s3\<lparr>pending := pending s3 @ [FetchCall svc params]\<rparr>))
           else Inr s1))"

definition fetch_then :: "component \<Rightarrow> jsval list \<Rightarrow> component" where
  "fetch_then s result =
     (let s1 = s\<lparr>requestsInQueue := requestsInQueue s - 1\<rparr>;
          s2 = s1\<lparr>autocompleteList := filterCallback s1 result\<rparr>;
          s3 = s2\<lparr>noSuggestions := (length result = 0)\<rparr>
      in saveReturnType s3 (autocompleteList s3))"

text \<open>A string is falsy when empty, so an empty \<^verbatim>\<open>displayItem\<close> counts as none.\<close>

definition displayItem_set :: "component \<Rightarrow> bool" where
  "displayItem_set s = (case displayItem s of None \<Rightarrow> False | Some d \<Rightarrow> d \<noteq> [])"

definition viewItem :: "js_env \<Rightarrow> component \<Rightarrow> jsval \<Rightarrow> error + jsval" where
  "viewItem env s item =
     (case displayItemFn s of
        Some f \<Rightarrow> Inr (JStr (f item))
      | None \<Rightarrow>
          (case displayItem s of
             None \<Rightarrow> item_name (heap env) item
           | Some d \<Rightarrow> if d \<noteq> [] then js_eval env d item else item_name (heap env) item))"

text \<open>
  The callback given to \<^verbatim>\<open>storedItems.filter\<close>. The source calls \<^verbatim>\<open>viewItem(item)\<close> twice, for
  the check and for the string; the two calls give the same value.
\<close>

definition filter_callback :: "js_env \<Rightarrow> component \<Rightarrow> jsval \<Rightarrow> error + bool" where
  "filter_callback env s item =
     (case viewItem env s item of
        Inl e \<Rightarrow> Inl e
      | Inr v \<Rightarrow>
          if \<not> truthy v then Inl DisplayItemWrong
          else
            (case toLowerCase_val v of
               Inl e \<Rightarrow> Inl e
             | Inr formated \<Rightarrow>
                 (let formatedItem =
                        (case displayItemFn s of
                           Some f \<Rightarrow> toLowerCase (f item)
                         | None \<Rightarrow> formated)
                  in Inr (indexOf formatedItem (toLowerCase (query s)) > - 1))))"

text \<open>\<^verbatim>\<open>Array.prototype.filter\<close> with a callback that may throw: the elements are visited in
  order, and the first throw ends the call.\<close>

fun filter_items :: "('a \<Rightarrow> error + bool) \<Rightarrow> 'a list \<Rightarrow> error + 'a list" where
  "filter_items p [] = Inr []"
| "filter_items p (x # xs) =
     (case p x of
        Inl e \<Rightarrow> Inl e
      | Inr b \<Rightarrow>
          (case filter_items p xs of
             Inl e \<Rightarrow> Inl e
           | Inr ys \<Rightarrow> Inr (if b then x # ys else ys)))"

definition filterStoredItems :: "js_env \<Rightarrow> component \<Rightarrow> outcome" where
  "filterStoredItems env s =
     (if \<not> displayItem_set s \<and> displayItemFn s = None then Inl (DisplayNotProvided, s)
      else
        (let s1 = s\<lparr>query := inputValue s\<rparr> in
         if int (length (query s1)) < minChars s1 then Inr s1
         else
           (case storedItems s1 of
              Some xs \<Rightarrow>
                (case filter_items (filter_callback env s1) xs of
                   Inl e \<Rightarrow> Inl (e, s1)
                 | Inr ys \<Rightarrow>
                     (let s2 = s1\<lparr>autocompleteList := Some ys\<rparr>
                      in Inr (s2\<lparr>noSuggestions := (0 < length (query s2) \<and> length ys = 0)\<rparr>)))
            | None \<Rightarrow>
                (let s2 = s1\<lparr>autocompleteList := Some []\<rparr>
                 in Inr (s2\<lparr>noSuggestions := False\<rparr>)))))"

text \<open>
  Modelled from the spec: the \<^verbatim>\<open>value\<close> property of the base class
  \<^verbatim>\<open>AbstractValueAccessor\<close> (abstract-value-accessor.ts is not among the sources). The spec has
  the bound value set to what is assigned ("both the external bound value and the model
  are set to the selected candidate", "value reset to empty").
\<close>

definition set_value :: "component \<Rightarrow> jsval \<Rightarrow> component" where
  "set_value s v = s\<lparr>boundValue := v\<rparr>"

text \<open>\<^verbatim>\<open>clearValue()\<close>. The reset of the host's form control is a call out of the component; it
  is recorded among the outputs.\<close>

definition clearValue :: "component \<Rightarrow> component" where
  "clearValue s =
     (let s1 = (if formControlItem s then emit s FormControlReset else s);
          s2 = set_model s1 JNull
      in set_value s2 (JStr []))"

text \<open>\<^verbatim>\<open>autocompleteSelected($event)\<close>, with \<open>selected\<close> for \<^verbatim>\<open>$event.option.value\<close>.\<close>

definition autocompleteSelected :: "component \<Rightarrow> jsval \<Rightarrow> component" where
  "autocompleteSelected s selected =
     (let s1 = s\<lparr>query := inputValue s\<rparr>;
          s2 = set_value s1 selected;
          s3 = set_model s2 selected;
          s4 = (if truthy selected then emit s3 (OptionSelected selected) else s3)
      in if clearAfterSearch s4 then clearValue s4 else s4)"

definition doSearchViaService :: "component \<Rightarrow> bool" where
  "doSearchViaService s = (service s \<noteq> None \<and> \<not> doPrefetch s)"

definition onKeyCallback :: "js_env \<Rightarrow> component \<Rightarrow> outcome" where
  "onKeyCallback env s = (if doSearchViaService s then fetch s False else filterStoredItems env s)"

definition onKey :: "js_env \<Rightarrow> component \<Rightarrow> int \<Rightarrow> outcome" where
  "onKey env s keyCode =
     (if keyCode < 37 \<or> keyCode > 40 then
        (let s1 = (if inputValue s = [] then clearValue s else s) in onKeyCallback env s1)
      else Inr s)"

definition onFocus :: "js_env \<Rightarrow> component \<Rightarrow> outcome" where
  "onFocus env s = (if doSearchViaService s then fetch s False else filterStoredItems env s)"

section \<open>Runs of the component\<close>

text \<open>
  The component lives in an event loop: the host binds inputs, the user types, focuses and
  selects, and promises of the service resolve, one at a time and in any order. A handler
  that throws leaves the component as it was at the throw, and the next event finds it so.
  \<open>Resolve i result\<close> resolves the \<open>i\<close>-th pending promise with \<open>result\<close>.
\<close>

datatype event =
    SetSource source_value
  | SetModel jsval
  | SetInputValue string
  | NgOnInit
  | CallPrefetch
  | CallFetch bool
  | CallFilterStoredItems
  | Selected jsval
  | CallClearValue
  | KeyUp int
  | Focus
  | Resolve nat "jsval list"

definition resolve :: "component \<Rightarrow> nat \<Rightarrow> jsval list \<Rightarrow> component" where
  "resolve s i result =
     (if i < length (pending s) then
        (let s1 = s\<lparr>pending := take i (pending s) @ drop (Suc i) (pending s)\<rparr> in
         case pending s ! i of
           PrefetchCall svc p \<Rightarrow> prefetch_then s1 result
         | FetchCall svc p \<Rightarrow> fetch_then s1 result)
      else s)"

fun step :: "js_env \<Rightarrow> component \<Rightarrow> event \<Rightarrow> component" where
  "step env s (SetSource v) = set_source s v"
| "step env s (SetModel v) = set_model s v"
| "step env s (SetInputValue t) = s\<lparr>inputValue := t\<rparr>"
| "step env s NgOnInit = state_of (ngOnInit s)"
| "step env s CallPrefetch = state_of (prefetch s)"
| "step env s (CallFetch force) = state_of (fetch s force)"
| "step env s CallFilterStoredItems = state_of (filterStoredItems env s)"
| "step env s (Selected v) = autocompleteSelected s v"
| "step env s CallClearValue = clearValue s"
| "step env s (KeyUp k) = state_of (onKey env s k)"
| "step env s Focus = state_of (onFocus env s)"
| "step env s (Resolve i result) = resolve s i result"

fun run :: "js_env \<Rightarrow> component \<Rightarrow> event list \<Rightarrow> component" where
  "run env s [] = s"
| "run env s (e # es) = run env (step env s e) es"

section \<open>Notions of the specification\<close>

subsection \<open>Dispatches and completions of remote fetches\<close>

text \<open>The gating check of \<open>fetch\<close>: a service is configured, the query is not empty, and the
  dispatch is forced or the query has at least \<open>minChars\<close> characters.\<close>

definition passes_gate :: "component \<Rightarrow> bool \<Rightarrow> bool" where
  "passes_gate s force =
     (service s \<noteq> None \<and> inputValue s \<noteq> []
      \<and> (force \<or> minChars s \<le> int (length (inputValue s))))"

text \<open>An event dispatches a remote fetch when it calls \<open>fetch\<close> and the call passes the gate.\<close>

fun dispatches_fetch :: "component \<Rightarrow> event \<Rightarrow> bool" where
  "dispatches_fetch s (CallFetch force) = passes_gate s force"
| "dispatches_fetch s Focus = (doSearchViaService s \<and> passes_gate s False)"
| "dispatches_fetch s (KeyUp k) =
     ((k < 37 \<or> k > 40) \<and> doSearchViaService s \<and> passes_gate s False)"
| "dispatches_fetch s e = False"

fun is_fetch :: "request \<Rightarrow> bool" where
  "is_fetch (FetchCall svc p) = True"
| "is_fetch (PrefetchCall svc p) = False"

text \<open>An event completes a remote fetch when it resolves a pending promise of \<open>fetch\<close>.\<close>

fun completes_fetch :: "component \<Rightarrow> event \<Rightarrow> bool" where
  "completes_fetch s (Resolve i result) = (i < length (pending s) \<and> is_fetch (pending s ! i))"
| "completes_fetch s e = False"

text \<open>The dispatches and the completions of a run, and the fetches in flight in a state.\<close>

fun dispatched :: "js_env \<Rightarrow> component \<Rightarrow> event list \<Rightarrow> nat" where
  "dispatched env s [] = 0"
| "dispatched env s (e # es) =
     (if dispatches_fetch s e then 1 else 0) + dispatched env (step env s e) es"

fun completed :: "js_env \<Rightarrow> component \<Rightarrow> event list \<Rightarrow> nat" where
  "completed env s [] = 0"
| "completed env s (e # es) =
     (if completes_fetch s e then 1 else 0) + completed env (step env s e) es"

definition in_flight :: "component \<Rightarrow> nat" where
  "in_flight s = length (filter is_fetch (pending s))"

subsection \<open>The last completed fetch or filter\<close>

text \<open>
  What a completed dispatch reports: the path it took, the query it was made for (the
  \<^verbatim>\<open>query\<close> parameter of a remote call, the query text of a local filter) and the number of
  candidates it returned (the length of the raw result of the service, the length of the
  filtered list).
\<close>

datatype path = ViaPrefetch | ViaFetch | ViaFilter

record completion =
  via :: path
  asked :: "string option"
  returned :: nat

text \<open>A call of \<open>filterStoredItems\<close> completes a filter when it neither throws nor returns early
  on a query that is too short.\<close>

definition filter_completion :: "js_env \<Rightarrow> component \<Rightarrow> completion option" where
  "filter_completion env s =
     (case filterStoredItems env s of
        Inl err \<Rightarrow> None
      | Inr s' \<Rightarrow>
          if int (length (inputValue s)) < minChars s then None
          else Some \<lparr>via = ViaFilter, asked = Some (inputValue s),
                      returned = (case autocompleteList s' of None \<Rightarrow> 0 | Some ys \<Rightarrow> length ys)\<rparr>)"

fun completion_of :: "js_env \<Rightarrow> component \<Rightarrow> event \<Rightarrow> completion option" where
  "completion_of env s (Resolve i result) =
     (if i < length (pending s) then
        (case pending s ! i of
           PrefetchCall svc p \<Rightarrow>
             Some \<lparr>via = ViaPrefetch, asked = p ''query'', returned = length result\<rparr>
         | FetchCall svc p \<Rightarrow>
             Some \<lparr>via = ViaFetch, asked = p ''query'', returned = length result\<rparr>)
      else None)"
| "completion_of env s CallFilterStoredItems = filter_completion env s"
| "completion_of env s Focus =
     (if doSearchViaService s then None else filter_completion env s)"
| "completion_of env s (KeyUp k) =
     (if k < 37 \<or> k > 40 then
        (let s1 = (if inputValue s = [] then clearValue s else s)
         in if doSearchViaService s1 then None else filter_completion env s1)
      else None)"
| "completion_of env s e = None"

text \<open>The most recently completed fetch or filter of a run, \<open>prev\<close> being the one before it.\<close>

fun last_completion ::
  "js_env \<Rightarrow> component \<Rightarrow> event list \<Rightarrow> completion option \<Rightarrow> completion option" where
  "last_completion env s [] prev = prev"
| "last_completion env s (e # es) prev =
     last_completion env (step env s e) es
       (case completion_of env s e of None \<Rightarrow> prev | Some c \<Rightarrow> Some c)"

text \<open>
  What \<open>noSuggestions\<close> is said to stand for: the most recently completed fetch or filter
  returned zero candidates for a non-empty query. \<open>nothing_found\<close> asks the query of the
  fetches and filters only, a prefetch being made for no query.
\<close>

definition nothing_found_for_query :: "completion option \<Rightarrow> bool" where
  "nothing_found_for_query c =
     (case c of
        None \<Rightarrow> False
      | Some c \<Rightarrow> returned c = 0 \<and> (case asked c of None \<Rightarrow> False | Some q \<Rightarrow> q \<noteq> []))"

definition nothing_found :: "completion option \<Rightarrow> bool" where
  "nothing_found c =
     (case c of
        None \<Rightarrow> False
      | Some c \<Rightarrow>
          returned c = 0
          \<and> (via c \<noteq> ViaPrefetch \<longrightarrow> (case asked c of None \<Rightarrow> False | Some q \<Rightarrow> q \<noteq> [])))"

text \<open>Every pending fetch was dispatched for a non-empty query.\<close>

fun asks_query :: "request \<Rightarrow> bool" where
  "asks_query (FetchCall svc p) = (case p ''query'' of None \<Rightarrow> False | Some q \<Rightarrow> q \<noteq> [])"
| "asks_query (PrefetchCall svc p) = True"

definition queries_asked :: "component \<Rightarrow> bool" where
  "queries_asked s = list_all asks_query (pending s)"

subsection \<open>Case-insensitive containment\<close>

text \<open>The display string \<open>d\<close> contains the query \<open>q\<close> case-insensitively: the lower-cased query
  is a contiguous part of the lower-cased display string.\<close>

definition contains_ci :: "string \<Rightarrow> string \<Rightarrow> bool" where
  "contains_ci d q = sublist (toLowerCase q) (toLowerCase d)"

text \<open>The resolved display string of a candidate, where the resolution yields a string.\<close>

definition display_string :: "js_env \<Rightarrow> component \<Rightarrow> jsval \<Rightarrow> string" where
  "display_string env s item = (case viewItem env s item of Inr (JStr d) \<Rightarrow> d | _ \<Rightarrow> [])"

subsection \<open>Notifications of a selection\<close>

text \<open>The notifications sent through the \<^verbatim>\<open>optionSelected\<close> emitter.\<close>

fun is_optionSelected :: "notification \<Rightarrow> bool" where
  "is_optionSelected (OptionSelected v) = True"
| "is_optionSelected n = False"

section \<open>A sample configuration\<close>

text \<open>
  The component as its field initialisers leave it, with the documented defaults of the
  inputs, and a runtime with four objects in which the expressions \<^verbatim>\<open>item.name\<close> and
  \<^verbatim>\<open>item\<close> are understood.
\<close>

definition new_component :: component where
  "new_component =
     \<lparr>doPrefetch = False, displayItem = None, minChars = 2, clearAfterSearch = False,
      serviceParams = None, displayItemFn = None, filterCallback = Some,
      currentModel = JUndefined, query = [], autocompleteList = None, noSuggestions = False,
      requestsInQueue = 0, storedItems = None, service = None, returnType = None,
      boundValue = JUndefined, formControlItem = False, inputValue = [], pending = [],
      emitted = []\<rparr>"

definition sample_heap :: heap where
  "sample_heap r =
     (if r = 0 then [(''name'', JStr ''Apple'')]
      else if r = 1 then [(''name'', JStr ''Apricot'')]
      else if r = 2 then [(''name'', JStr ''Banana'')]
      else if r = 3 then [(''name'', JStr [])]
      else [])"

definition sample_eval :: "string \<Rightarrow> jsval \<Rightarrow> error + jsval" where
  "sample_eval e item =
     (if e = ''item.name'' then item_name sample_heap item
      else if e = ''item'' then Inr item
      else Inl EvalError)"

definition sample_env :: js_env where
  "sample_env = \<lparr>heap = sample_heap, js_eval = sample_eval\<rparr>"

definition fruit :: "jsval list" where
  "fruit = [JObj 0, JObj 1, JObj 2]"

text \<open>The component with a remote service as its source, and with the three fruit as its
  local source and \<^verbatim>\<open>displayItem = "item.name"\<close>.\<close>

definition remote_component :: component where
  "remote_component = set_source new_component (SourceService 0)"

definition local_component :: component where
  "local_component =
     (set_source new_component (SourceArray fruit))\<lparr>displayItem := Some ''item.name''\<rparr>"

text \<open>Two keystrokes dispatch two fetches; the second resolves first.\<close>

definition overlapping_fetches :: "event list" where
  "overlapping_fetches =
     [SetInputValue ''ab'', KeyUp 66, SetInputValue ''abc'', KeyUp 67,
      Resolve 1 [], Resolve 0 [JStr ''abc'']]"

text \<open>The component with a remote service and \<^verbatim>\<open>doPrefetch\<close> switched on.\<close>

definition prefetching_component :: component where
  "prefetching_component = remote_component\<lparr>doPrefetch := True\<rparr>"

text \<open>A local list of strings, then a service whose result is a list of numbers.\<close>

definition kind_changing_run :: "event list" where
  "kind_changing_run =
     [SetSource (SourceArray [JStr ''a'']), SetSource (SourceService 0),
      SetInputValue ''ab'', CallFetch False, Resolve 0 [JNum 1]]"

text \<open>The query \<^verbatim>\<open>Ap\<close> typed over the three fruit; the same query over a list whose second
  object has an empty name; and a list of words, shown as they are by a display function,
  whose second word is empty.\<close>

definition typing_Ap :: component where
  "typing_Ap = local_component\<lparr>inputValue := ''Ap''\<rparr>"

definition blank_name_component :: component where
  "blank_name_component =
     local_component\<lparr>storedItems := Some [JObj 0, JObj 3], inputValue := ''Ap''\<rparr>"

fun text_of :: "jsval \<Rightarrow> string" where
  "text_of (JStr t) = t"
| "text_of v = ''?''"

definition words_component :: component where
  "words_component =
     (set_source new_component (SourceArray [JStr ''apple'', JStr []]))
       \<lparr>displayItemFn := Some text_of, inputValue := ''ap''\<rparr>"

text \<open>The query \<^verbatim>\<open>Ap\<close> over a list that holds null before the object with the empty name.\<close>

definition null_first_component :: component where
  "null_first_component =
     local_component\<lparr>storedItems := Some [JNull, JObj 3], inputValue := ''Ap''\<rparr>"

text \<open>A prefetch that resolves with no candidates, and a fetch for \<^verbatim>\<open>xyz\<close> that does.\<close>

definition empty_prefetch :: "event list" where
  "empty_prefetch = [CallPrefetch, Resolve 0 []]"

definition nothing_for_xyz :: "event list" where
  "nothing_for_xyz = [SetInputValue ''xyz'', KeyUp 90, Resolve 0 []]"

section \<open>Properties\<close>

subsection \<open>What each operation leaves unchanged\<close>

lemma state_of_simps [simp]:
  "state_of (Inr s) = s"
  "state_of (Inl (e, s)) = s"
  by (simp_all add: state_of_def)

lemma saveReturnType_frame:
  "requestsInQueue (saveReturnType s items) = requestsInQueue s"
  "pending (saveReturnType s items) = pending s"
  "noSuggestions (saveReturnType s items) = noSuggestions s"
  "in_flight (saveReturnType s items) = in_flight s"
  by (simp_all add: saveReturnType_def in_flight_def split: option.splits list.splits)

lemma set_source_frame:
  "requestsInQueue (set_source s v) = requestsInQueue s"
  "pending (set_source s v) = pending s"
  "noSuggestions (set_source s v) = noSuggestions s"
  "in_flight (set_source s v) = in_flight s"
  by (simp_all add: set_source_def saveReturnType_frame in_flight_def Let_def
      split: source_value.splits)

lemma set_model_frame:
  "requestsInQueue (set_model s v) = requestsInQueue s"
  "pending (set_model s v) = pending s"
  "noSuggestions (set_model s v) = noSuggestions s"
  "inputValue (set_model s v) = inputValue s"
  "minChars (set_model s v) = minChars s"
  "service (set_model s v) = service s"
  "doPrefetch (set_model s v) = doPrefetch s"
  "in_flight (set_model s v) = in_flight s"
  by (simp_all add: set_model_def emit_def in_flight_def Let_def)

lemma clearValue_frame:
  "requestsInQueue (clearValue s) = requestsInQueue s"
  "pending (clearValue s) = pending s"
  "noSuggestions (clearValue s) = noSuggestions s"
  "inputValue (clearValue s) = inputValue s"
  "minChars (clearValue s) = minChars s"
  "service (clearValue s) = service s"
  "doPrefetch (clearValue s) = doPrefetch s"
  "in_flight (clearValue s) = in_flight s"
  by (simp_all add: clearValue_def set_value_def set_model_frame emit_def in_flight_def Let_def)

lemma autocompleteSelected_frame:
  "requestsInQueue (autocompleteSelected s v) = requestsInQueue s"
  "pending (autocompleteSelected s v) = pending s"
  "noSuggestions (autocompleteSelected s v) = noSuggestions s"
  "in_flight (autocompleteSelected s v) = in_flight s"
  by (simp_all add: autocompleteSelected_def clearValue_frame set_value_def set_model_frame
      emit_def in_flight_def Let_def)

lemma prefetch_frame:
  "requestsInQueue (state_of (prefetch s)) = requestsInQueue s"
  "in_flight (state_of (prefetch s)) = in_flight s"
  by (simp_all add: prefetch_def in_flight_def Let_def split: option.splits)

lemma filterStoredItems_frame:
  "requestsInQueue (state_of (filterStoredItems env s)) = requestsInQueue s"
  "pending (state_of (filterStoredItems env s)) = pending s"
  "in_flight (state_of (filterStoredItems env s)) = in_flight s"
  by (simp_all add: filterStoredItems_def in_flight_def Let_def split: option.splits sum.splits)

lemma fetch_counts:
  "requestsInQueue (state_of (fetch s force)) =
     requestsInQueue s + (if passes_gate s force then 1 else 0)"
  "in_flight (state_of (fetch s force)) =
     in_flight s + (if passes_gate s force then 1 else 0)"
  by (auto simp add: fetch_def passes_gate_def isQueryEmpty_def in_flight_def Let_def
      split: option.splits)

lemma filter_remove_nth:
  assumes "i < length xs"
  shows "int (length (filter P (take i xs @ drop (Suc i) xs))) =
    int (length (filter P xs)) - (if P (xs ! i) then 1 else 0)"
proof -
  have "xs = take i xs @ xs ! i # drop (Suc i) xs"
    using assms by (rule id_take_nth_drop)
  then have "length (filter P xs) =
      length (filter P (take i xs @ xs ! i # drop (Suc i) xs))"
    by simp
  then show ?thesis by simp
qed

lemma resolve_requestsInQueue:
  "requestsInQueue (resolve s i result) =
     requestsInQueue s - (if completes_fetch s (Resolve i result) then 1 else 0)"
  by (simp add: resolve_def fetch_then_def prefetch_then_def saveReturnType_frame Let_def
      split: request.splits)

lemma resolve_in_flight:
  "int (in_flight (resolve s i result)) =
     int (in_flight s) - (if completes_fetch s (Resolve i result) then 1 else 0)"
proof (cases "i < length (pending s)")
  case True
  let ?s1 = "s\<lparr>pending := take i (pending s) @ drop (Suc i) (pending s)\<rparr>"
  have rest: "int (in_flight ?s1) = int (in_flight s) - (if is_fetch (pending s ! i) then 1 else 0)"
    using True filter_remove_nth [of i "pending s" is_fetch] by (simp add: in_flight_def)
  have "in_flight (resolve s i result) = in_flight ?s1"
    using True
    by (simp add: resolve_def fetch_then_def prefetch_then_def saveReturnType_frame Let_def
        split: request.splits) (simp add: in_flight_def)
  with rest True show ?thesis by simp
next
  case False
  then show ?thesis by (simp add: resolve_def)
qed

lemma passes_gate_clearValue: "passes_gate (clearValue s) force = passes_gate s force"
  by (simp add: passes_gate_def clearValue_frame)

lemma doSearchViaService_clearValue: "doSearchViaService (clearValue s) = doSearchViaService s"
  by (simp add: doSearchViaService_def clearValue_frame)

lemma onKey_requestsInQueue:
  "requestsInQueue (state_of (onKey env s k)) =
     requestsInQueue s + (if dispatches_fetch s (KeyUp k) then 1 else 0)"
  by (simp add: onKey_def onKeyCallback_def fetch_counts filterStoredItems_frame
      clearValue_frame passes_gate_clearValue doSearchViaService_clearValue Let_def)

lemma onKey_in_flight:
  "in_flight (state_of (onKey env s k)) =
     in_flight s + (if dispatches_fetch s (KeyUp k) then 1 else 0)"
  by (simp add: onKey_def onKeyCallback_def fetch_counts filterStoredItems_frame
      clearValue_frame passes_gate_clearValue doSearchViaService_clearValue Let_def)

lemma step_requestsInQueue:
  "requestsInQueue (step env s e) =
     requestsInQueue s + (if dispatches_fetch s e then 1 else 0)
       - (if completes_fetch s e then 1 else 0)"
proof (cases e)
  case (KeyUp k)
  then show ?thesis by (simp add: onKey_requestsInQueue)
next
  case Focus
  then show ?thesis
    by (simp add: onFocus_def fetch_counts filterStoredItems_frame)
next
  case NgOnInit
  then show ?thesis by (simp add: ngOnInit_def prefetch_frame)
qed (simp_all add: set_source_frame set_model_frame prefetch_frame fetch_counts
    filterStoredItems_frame autocompleteSelected_frame clearValue_frame resolve_requestsInQueue)

lemma step_in_flight:
  "int (in_flight (step env s e)) =
     int (in_flight s) + (if dispatches_fetch s e then 1 else 0)
       - (if completes_fetch s e then 1 else 0)"
proof (cases e)
  case (KeyUp k)
  then show ?thesis by (simp add: onKey_in_flight)
next
  case Focus
  then show ?thesis
    by (simp add: onFocus_def fetch_counts filterStoredItems_frame)
next
  case NgOnInit
  then show ?thesis by (simp add: ngOnInit_def prefetch_frame)
next
  case (Resolve i result)
  then show ?thesis by (simp add: resolve_in_flight)
next
  case (CallFetch force)
  then show ?thesis by (simp add: fetch_counts)
next
  case (SetInputValue x)
  then show ?thesis by (simp add: in_flight_def)
qed (simp_all add: set_source_frame set_model_frame prefetch_frame
    filterStoredItems_frame autocompleteSelected_frame clearValue_frame)

lemma run_requestsInQueue:
  "requestsInQueue (run env s evs) =
     requestsInQueue s + int (dispatched env s evs) - int (completed env s evs)"
  by (induction evs arbitrary: s) (simp_all add: step_requestsInQueue)

lemma run_in_flight:
  "int (in_flight (run env s evs)) =
     int (in_flight s) + int (dispatched env s evs) - int (completed env s evs)"
  by (induction evs arbitrary: s) (simp_all add: step_in_flight)

lemma set_model_currentModel: "currentModel (set_model s v) = v"
  by (simp add: set_model_def emit_def Let_def)

lemma set_model_optionSelected:
  "filter is_optionSelected (emitted (set_model s v)) = filter is_optionSelected (emitted s)"
  by (simp add: set_model_def emit_def Let_def)

lemma clearValue_effect:
  "currentModel (clearValue s) = JNull" "boundValue (clearValue s) = JStr []"
  "filter is_optionSelected (emitted (clearValue s)) = filter is_optionSelected (emitted s)"
  by (simp_all add: clearValue_def set_value_def set_model_currentModel set_model_optionSelected
      emit_def Let_def)

lemma set_model_clearAfterSearch:
  "clearAfterSearch (set_model s v) = clearAfterSearch s"
  "boundValue (set_model s v) = boundValue s"
  by (simp_all add: set_model_def emit_def Let_def)

subsection \<open>Local filtering\<close>

lemma indexOf_from_sublist: "(- 1 < indexOf_from s q i) = sublist q s"
  by (induction s arbitrary: i) (simp_all add: sublist_Cons_right)

lemma indexOf_sublist: "(- 1 < indexOf s q) = sublist q s"
  by (simp add: indexOf_def indexOf_from_sublist)

lemma viewItem_query [simp]: "viewItem env (s\<lparr>query := q\<rparr>) item = viewItem env s item"
  by (simp add: viewItem_def split: option.splits)

lemma viewItem_cong:
  assumes "displayItemFn s' = displayItemFn s" "displayItem s' = displayItem s"
  shows "viewItem env s' item = viewItem env s item"
  using assms by (simp add: viewItem_def cong: option.case_cong)

lemma filter_callback_cong:
  assumes "displayItemFn s' = displayItemFn s" "displayItem s' = displayItem s"
    "query s' = query s"
  shows "filter_callback env s' item = filter_callback env s item"
  using assms viewItem_cong [OF assms(1,2), of env item]
  by (simp add: filter_callback_def cong: sum.case_cong option.case_cong if_cong)

lemma filter_callback_string:
  assumes "viewItem env s x = Inr (JStr d)" "d \<noteq> []"
  shows "filter_callback env s x = Inr (contains_ci d (query s))"
  using assms
  by (auto simp add: filter_callback_def viewItem_def contains_ci_def indexOf_sublist Let_def
      split: option.splits)

lemma filter_callback_falsy:
  assumes "viewItem env s x = Inr v" "\<not> truthy v"
  shows "filter_callback env s x = Inl DisplayItemWrong"
  using assms by (simp add: filter_callback_def)

lemma filter_callback_error_of_string:
  assumes "viewItem env s y = Inr (JStr d)" "filter_callback env s y = Inl e"
  shows "e = DisplayItemWrong"
  using assms
  by (auto simp add: filter_callback_def Let_def split: if_splits option.splits)

lemma filter_items_all:
  assumes "\<forall>x \<in> set xs. p x = Inr (q x)"
  shows "filter_items p xs = Inr (filter q xs)"
  using assms by (induction xs) simp_all

lemma filter_items_raises:
  assumes "x \<in> set xs" "p x = Inl e"
  shows "\<exists>e' y. y \<in> set xs \<and> p y = Inl e' \<and> filter_items p xs = Inl e'"
  using assms
proof (induction xs)
  case Nil
  then show ?case by simp
next
  case (Cons a xs)
  show ?case
  proof (cases "p a")
    case (Inl e0)
    then show ?thesis by auto
  next
    case (Inr b)
    with Cons.prems have "x \<in> set xs" by auto
    from Cons.IH [OF this Cons.prems(2)] obtain e' y
      where "y \<in> set xs" "p y = Inl e'" "filter_items p xs = Inl e'" by blast
    with Inr show ?thesis by auto
  qed
qed

lemma filterStoredItems_qualifying:
  assumes cfg: "displayItem_set s \<or> displayItemFn s \<noteq> None"
    and len: "minChars s \<le> int (length (inputValue s))"
    and items: "storedItems s = Some xs"
  shows "filterStoredItems env s =
    (case filter_items (filter_callback env (s\<lparr>query := inputValue s\<rparr>)) xs of
       Inl e \<Rightarrow> Inl (e, s\<lparr>query := inputValue s\<rparr>)
     | Inr ys \<Rightarrow>
         Inr (s\<lparr>query := inputValue s, autocompleteList := Some ys,
                noSuggestions := (inputValue s \<noteq> [] \<and> ys = [])\<rparr>))"
  using assms by (auto simp add: filterStoredItems_def Let_def split: sum.splits)

lemma filter_callback_of_string:
  assumes "viewItem env s y = Inr (JStr d)"
  shows "(\<exists>b. filter_callback env s y = Inr b) \<or> filter_callback env s y = Inl DisplayItemWrong"
proof (cases "d = []")
  case True
  with assms have "filter_callback env s y = Inl DisplayItemWrong"
    by (intro filter_callback_falsy [where v = "JStr d"]) simp_all
  then show ?thesis by simp
next
  case False
  with assms have "filter_callback env s y = Inr (contains_ci d (query s))"
    by (rule filter_callback_string)
  then show ?thesis by simp
qed

lemma filter_items_first_raise:
  assumes "\<forall>y \<in> set pre. (\<exists>b. p y = Inr b) \<or> p y = Inl e" "p x = Inl e"
  shows "filter_items p (pre @ x # post) = Inl e"
  using assms
proof (induction pre)
  case Nil
  then show ?case by simp
next
  case (Cons a pre)
  then have rest: "filter_items p (pre @ x # post) = Inl e" by simp
  from Cons.prems(1) have "(\<exists>b. p a = Inr b) \<or> p a = Inl e" by simp
  with rest show ?case by auto
qed

subsection \<open>The flag of no suggestions along a run\<close>

lemma fetch_noSuggestions:
  "noSuggestions (state_of (fetch s force)) \<longrightarrow> noSuggestions s"
  by (simp add: fetch_def Let_def split: option.splits)

lemma fetch_queries_asked:
  "queries_asked s \<Longrightarrow> queries_asked (state_of (fetch s force))"
  by (simp add: fetch_def queries_asked_def isQueryEmpty_def params_set_def Let_def
      split: option.splits)

lemma prefetch_noSuggestions:
  "noSuggestions (state_of (prefetch s)) \<longrightarrow> noSuggestions s"
  by (simp add: prefetch_def Let_def split: option.splits)

lemma prefetch_queries_asked:
  "queries_asked s \<Longrightarrow> queries_asked (state_of (prefetch s))"
  by (simp add: prefetch_def queries_asked_def Let_def split: option.splits)

lemma filterStoredItems_noSuggestions:
  assumes "noSuggestions s \<longrightarrow> nothing_found prev"
  shows "noSuggestions (state_of (filterStoredItems env s)) \<longrightarrow>
    nothing_found (case filter_completion env s of None \<Rightarrow> prev | Some c \<Rightarrow> Some c)"
  using assms
  by (auto simp add: filter_completion_def filterStoredItems_def nothing_found_def Let_def
      split: option.splits sum.splits)

lemma list_all_remove_nth:
  "list_all P xs \<Longrightarrow> list_all P (take i xs @ drop (Suc i) xs)"
  by (auto simp add: list_all_iff dest: in_set_takeD in_set_dropD)

lemma saveReturnType_queries_asked:
  "queries_asked (saveReturnType s items) = queries_asked s"
  by (simp add: queries_asked_def saveReturnType_frame)

lemma resolve_queries_asked:
  assumes "queries_asked s"
  shows "queries_asked (resolve s i result)"
proof (cases "i < length (pending s)")
  case True
  let ?s1 = "s\<lparr>pending := take i (pending s) @ drop (Suc i) (pending s)\<rparr>"
  have "queries_asked ?s1"
    using assms list_all_remove_nth [of asks_query "pending s" i]
    by (simp add: queries_asked_def del: list_all_append)
  then show ?thesis
    using True
    by (simp add: resolve_def fetch_then_def prefetch_then_def saveReturnType_queries_asked
        Let_def split: request.splits) (simp add: queries_asked_def)
next
  case False
  with assms show ?thesis by (simp add: resolve_def)
qed

lemma resolve_noSuggestions:
  assumes "noSuggestions s \<longrightarrow> nothing_found prev" "queries_asked s"
  shows "noSuggestions (resolve s i result) \<longrightarrow>
    nothing_found (case completion_of env s (Resolve i result) of None \<Rightarrow> prev | Some c \<Rightarrow> Some c)"
proof (cases "i < length (pending s)")
  case True
  then have "pending s ! i \<in> set (pending s)" by simp
  with assms(2) have asked: "asks_query (pending s ! i)"
    by (simp add: queries_asked_def list_all_iff)
  show ?thesis
  proof (cases "pending s ! i")
    case (PrefetchCall svc p)
    with True show ?thesis
      by (simp add: resolve_def prefetch_then_def saveReturnType_frame nothing_found_def Let_def)
  next
    case (FetchCall svc p)
    with True asked show ?thesis
      by (simp add: resolve_def fetch_then_def saveReturnType_frame nothing_found_def Let_def)
  qed
next
  case False
  with assms show ?thesis by (simp add: resolve_def)
qed

lemma queries_asked_frame:
  "queries_asked (state_of (filterStoredItems env s)) = queries_asked s"
  "queries_asked (set_source s src) = queries_asked s"
  "queries_asked (set_model s v) = queries_asked s"
  "queries_asked (clearValue s) = queries_asked s"
  "queries_asked (autocompleteSelected s v) = queries_asked s"
  by (simp_all add: queries_asked_def filterStoredItems_frame set_source_frame set_model_frame
      clearValue_frame autocompleteSelected_frame)

lemma step_queries_asked:
  assumes "queries_asked s"
  shows "queries_asked (step env s e)"
proof (cases e)
  case (KeyUp k)
  with assms show ?thesis
    by (simp add: onKey_def onKeyCallback_def fetch_queries_asked queries_asked_frame Let_def)
next
  case Focus
  with assms show ?thesis
    by (simp add: onFocus_def fetch_queries_asked queries_asked_frame)
next
  case NgOnInit
  with assms show ?thesis by (simp add: ngOnInit_def prefetch_queries_asked)
next
  case (SetInputValue x)
  with assms show ?thesis by (simp add: queries_asked_def)
qed (use assms in \<open>simp_all add: fetch_queries_asked prefetch_queries_asked
    resolve_queries_asked queries_asked_frame\<close>)

lemma step_noSuggestions:
  assumes "noSuggestions s \<longrightarrow> nothing_found prev" "queries_asked s"
  shows "noSuggestions (step env s e) \<longrightarrow>
    nothing_found (case completion_of env s e of None \<Rightarrow> prev | Some c \<Rightarrow> Some c)"
proof (cases e)
  case (KeyUp k)
  show ?thesis
  proof (cases "k < 37 \<or> k > 40")
    case True
    let ?s1 = "if inputValue s = [] then clearValue s else s"
    have inv1: "noSuggestions ?s1 \<longrightarrow> nothing_found prev"
      using assms(1) by (simp add: clearValue_frame)
    show ?thesis
    proof (cases "doSearchViaService ?s1")
      case via: True
      with True KeyUp inv1 fetch_noSuggestions [of ?s1 False] show ?thesis
        by (simp add: onKey_def onKeyCallback_def Let_def)
    next
      case local: False
      with True KeyUp filterStoredItems_noSuggestions [OF inv1, of env] show ?thesis
        by (simp add: onKey_def onKeyCallback_def Let_def)
    qed
  next
    case False
    with KeyUp assms(1) show ?thesis by (simp add: onKey_def)
  qed
next
  case Focus
  with assms(1) fetch_noSuggestions [of s False] filterStoredItems_noSuggestions [OF assms(1), of env]
  show ?thesis by (simp add: onFocus_def)
next
  case NgOnInit
  with assms(1) prefetch_noSuggestions [of s] show ?thesis by (simp add: ngOnInit_def)
next
  case CallPrefetch
  with assms(1) prefetch_noSuggestions [of s] show ?thesis by simp
next
  case (CallFetch force)
  with assms(1) fetch_noSuggestions [of s force] show ?thesis by simp
next
  case CallFilterStoredItems
  with filterStoredItems_noSuggestions [OF assms(1), of env] show ?thesis by simp
next
  case (Resolve i result)
  with resolve_noSuggestions [OF assms, of i result env] show ?thesis by simp
qed (use assms(1) in \<open>simp_all add: set_source_frame set_model_frame autocompleteSelected_frame
    clearValue_frame\<close>)

lemma run_noSuggestions:
  assumes "noSuggestions s \<longrightarrow> nothing_found prev" "queries_asked s"
  shows "noSuggestions (run env s evs) \<longrightarrow> nothing_found (last_completion env s evs prev)"
  using assms
proof (induction evs arbitrary: s prev)
  case Nil
  then show ?case by simp
next
  case (Cons e evs)
  have "noSuggestions (step env s e) \<longrightarrow>
      nothing_found (case completion_of env s e of None \<Rightarrow> prev | Some c \<Rightarrow> Some c)"
    using Cons.prems by (rule step_noSuggestions)
  moreover have "queries_asked (step env s e)"
    using Cons.prems(2) by (rule step_queries_asked)
  ultimately show ?case using Cons.IH by simp
qed

subsection \<open>The claims\<close>

text \<open>C1: in every run, \<open>requestsInQueue\<close> has gone up by one for each dispatched fetch and
  down by one for each completed one, whatever the order of the completions; it is the
  number of fetches in flight, so it is never negative and is 0 once every dispatched
  fetch has resolved.\<close>

theorem requestsInQueue_balanced:
  assumes "requestsInQueue s0 = int (in_flight s0)"
  shows "requestsInQueue (run env s0 evs) =
        requestsInQueue s0 + int (dispatched env s0 evs) - int (completed env s0 evs)
    \<and> requestsInQueue (run env s0 evs) = int (in_flight (run env s0 evs))
    \<and> 0 \<le> requestsInQueue (run env s0 evs)
    \<and> (in_flight (run env s0 evs) = 0 \<longrightarrow> requestsInQueue (run env s0 evs) = 0)"
  using assms run_requestsInQueue [of env s0 evs] run_in_flight [of env s0 evs] by simp

theorem requestsInQueue_balanced_witness:
  "requestsInQueue remote_component = int (in_flight remote_component)
   \<and> dispatched sample_env remote_component overlapping_fetches = 2
   \<and> completed sample_env remote_component overlapping_fetches = 2
   \<and> in_flight (run sample_env remote_component overlapping_fetches) = 0
   \<and> requestsInQueue (run sample_env remote_component overlapping_fetches) = 0"
proof -
  have h: "requestsInQueue remote_component = int (in_flight remote_component)"
    by code_simp
  have d: "dispatched sample_env remote_component overlapping_fetches = 2"
    by code_simp
  have c: "completed sample_env remote_component overlapping_fetches = 2"
    by code_simp
  have z: "in_flight (run sample_env remote_component overlapping_fetches) = 0"
    by code_simp
  from requestsInQueue_balanced [OF h, of sample_env overlapping_fetches] h d c z
  show ?thesis by simp
qed

text \<open>C2 as stated fails: over a list whose second candidate has an empty name, the query
  \<^verbatim>\<open>Ap\<close> is contained in the display string of the first candidate only, and
  \<open>filterStoredItems\<close> throws instead of setting the candidate list to that candidate.\<close>

theorem filterStoredItems_filters_counterexample:
  "minChars blank_name_component \<le> int (length (inputValue blank_name_component))
   \<and> storedItems blank_name_component = Some [JObj 0, JObj 3]
   \<and> contains_ci (display_string sample_env blank_name_component (JObj 0))
        (inputValue blank_name_component)
   \<and> \<not> contains_ci (display_string sample_env blank_name_component (JObj 3))
        (inputValue blank_name_component)
   \<and> error_of (filterStoredItems sample_env blank_name_component) = Some DisplayItemWrong
   \<and> autocompleteList (state_of (filterStoredItems sample_env blank_name_component))
        \<noteq> Some [JObj 0]"
  by code_simp

text \<open>C2, amended: with a display strategy configured and every stored candidate resolving
  to a non-empty display string, \<open>filterStoredItems\<close> on a query of at least \<open>minChars\<close>
  characters sets the candidate list to the stored candidates, in their order, whose
  display string contains the query case-insensitively, sets \<open>noSuggestions\<close> exactly when
  the query is non-empty and that list is empty, and run again on the result changes
  nothing.\<close>

theorem filterStoredItems_filters:
  assumes cfg: "displayItem_set s \<or> displayItemFn s \<noteq> None"
    and len: "minChars s \<le> int (length (inputValue s))"
    and items: "storedItems s = Some xs"
    and disp: "\<forall>x \<in> set xs. \<exists>d. viewItem env s x = Inr (JStr d) \<and> d \<noteq> []"
  shows "\<exists>s'. filterStoredItems env s = Inr s'
    \<and> autocompleteList s' =
        Some (filter (\<lambda>x. contains_ci (display_string env s x) (inputValue s)) xs)
    \<and> noSuggestions s' =
        (inputValue s \<noteq> []
         \<and> filter (\<lambda>x. contains_ci (display_string env s x) (inputValue s)) xs = [])
    \<and> filterStoredItems env s' = Inr s'"
proof -
  let ?s1 = "s\<lparr>query := inputValue s\<rparr>"
  let ?ys = "filter (\<lambda>x. contains_ci (display_string env s x) (inputValue s)) xs"
  let ?s' = "s\<lparr>query := inputValue s, autocompleteList := Some ?ys,
                noSuggestions := (inputValue s \<noteq> [] \<and> ?ys = [])\<rparr>"
  have cb: "\<forall>x \<in> set xs. filter_callback env ?s1 x =
      Inr (contains_ci (display_string env s x) (inputValue s))"
  proof
    fix x assume "x \<in> set xs"
    with disp obtain d where d: "viewItem env s x = Inr (JStr d)" "d \<noteq> []" by blast
    then have "filter_callback env ?s1 x = Inr (contains_ci d (query ?s1))"
      by (intro filter_callback_string) simp_all
    with d show "filter_callback env ?s1 x =
        Inr (contains_ci (display_string env s x) (inputValue s))"
      by (simp add: display_string_def)
  qed
  have fi: "filter_items (filter_callback env ?s1) xs = Inr ?ys"
    using cb by (rule filter_items_all)
  have first: "filterStoredItems env s = Inr ?s'"
    using filterStoredItems_qualifying [OF cfg len items, of env] fi by simp
  have cfg': "displayItem_set ?s' \<or> displayItemFn ?s' \<noteq> None"
    using cfg by (simp add: displayItem_set_def)
  have len': "minChars ?s' \<le> int (length (inputValue ?s'))" using len by simp
  have items': "storedItems ?s' = Some xs" using items by simp
  have same: "filter_callback env (?s'\<lparr>query := inputValue ?s'\<rparr>) = filter_callback env ?s1"
    by (rule ext) (simp add: filter_callback_cong)
  have again: "filterStoredItems env ?s' = Inr ?s'"
    using filterStoredItems_qualifying [OF cfg' len' items', of env] fi same by simp
  from first again show ?thesis by simp
qed

theorem filterStoredItems_filters_witness:
  "minChars typing_Ap \<le> int (length (inputValue typing_Ap))
   \<and> storedItems typing_Ap = Some fruit
   \<and> autocompleteList (state_of (filterStoredItems sample_env typing_Ap)) = Some [JObj 0, JObj 1]
   \<and> \<not> noSuggestions (state_of (filterStoredItems sample_env typing_Ap))"
proof -
  have fields: "displayItem typing_Ap = Some ''item.name''" "displayItemFn typing_Ap = None"
    "minChars typing_Ap = 2" "inputValue typing_Ap = ''Ap''" "storedItems typing_Ap = Some fruit"
    by (simp_all add: typing_Ap_def local_component_def new_component_def set_source_def
        saveReturnType_def fruit_def)
  have cfg: "displayItem_set typing_Ap \<or> displayItemFn typing_Ap \<noteq> None"
    by (simp add: displayItem_set_def fields)
  have len: "minChars typing_Ap \<le> int (length (inputValue typing_Ap))"
    by (simp add: fields)
  have disp: "\<forall>x \<in> set fruit. \<exists>d. viewItem sample_env typing_Ap x = Inr (JStr d) \<and> d \<noteq> []"
    by (simp add: fruit_def viewItem_def fields sample_env_def sample_eval_def sample_heap_def)
  have sub: "filter (\<lambda>x. contains_ci (display_string sample_env typing_Ap x)
      (inputValue typing_Ap)) fruit = [JObj 0, JObj 1]"
    by code_simp
  from filterStoredItems_filters [OF cfg len fields(5) disp] sub len fields(5)
  show ?thesis by auto
qed

text \<open>C3: assigning a model that differs from the current one stores it, and the
  \<open>modelChange\<close> notification goes out exactly when the value is null or its \<^verbatim>\<open>typeof\<close> is the
  cached return type.\<close>

theorem set_model_stores_and_gates_notification:
  assumes "v \<noteq> currentModel s"
  shows "currentModel (set_model s v) = v
    \<and> (emitted (set_model s v) = emitted s @ [ModelChange v]
         \<longleftrightarrow> v = JNull \<or> returnType s = Some (typeof v))
    \<and> (emitted (set_model s v) = emitted s
         \<longleftrightarrow> \<not> (v = JNull \<or> returnType s = Some (typeof v)))"
  using assms by (simp add: set_model_def emit_def Let_def)

theorem set_model_stores_and_gates_notification_witness:
  "JStr ''a'' \<noteq> currentModel new_component
   \<and> currentModel (set_model new_component (JStr ''a'')) = JStr ''a''
   \<and> emitted (set_model new_component (JStr ''a'')) = emitted new_component
   \<and> emitted (set_model new_component JNull) = emitted new_component @ [ModelChange JNull]"
  using set_model_stores_and_gates_notification [of "JStr ''a''" new_component]
    set_model_stores_and_gates_notification [of JNull new_component]
  by (simp add: new_component_def)

text \<open>C4 as stated fails: the candidate 0 is not null, and no \<^verbatim>\<open>optionSelected\<close> notification
  is sent for it.\<close>

theorem optionSelected_nonnull_counterexample:
  "JNum 0 \<noteq> JNull
   \<and> filter is_optionSelected (emitted (autocompleteSelected new_component (JNum 0))) = []"
  by (simp add: autocompleteSelected_def new_component_def set_value_def set_model_def emit_def
      Let_def)

text \<open>C4, amended: a selection sets the bound value and the model to the candidate, sends
  the \<^verbatim>\<open>optionSelected\<close> notification exactly when the candidate is truthy, and with
  \<open>clearAfterSearch\<close> then clears: the model is null and the bound value the empty string.\<close>

theorem autocompleteSelected_effect:
  "(\<exists>s4. boundValue s4 = v \<and> currentModel s4 = v
        \<and> autocompleteSelected s v = (if clearAfterSearch s then clearValue s4 else s4))
   \<and> (\<not> clearAfterSearch s \<longrightarrow>
        boundValue (autocompleteSelected s v) = v \<and> currentModel (autocompleteSelected s v) = v)
   \<and> (clearAfterSearch s \<longrightarrow>
        currentModel (autocompleteSelected s v) = JNull
        \<and> boundValue (autocompleteSelected s v) = JStr [])
   \<and> filter is_optionSelected (emitted (autocompleteSelected s v)) =
        filter is_optionSelected (emitted s) @ (if truthy v then [OptionSelected v] else [])"
proof -
  define s3 where "s3 = set_model (set_value (s\<lparr>query := inputValue s\<rparr>) v) v"
  define s4 where "s4 = (if truthy v then emit s3 (OptionSelected v) else s3)"
  have sel: "autocompleteSelected s v = (if clearAfterSearch s then clearValue s4 else s4)"
    by (simp add: autocompleteSelected_def s3_def s4_def Let_def set_model_clearAfterSearch
        set_value_def emit_def)
  have m: "currentModel s4 = v"
    by (simp add: s4_def s3_def set_model_currentModel emit_def)
  have b: "boundValue s4 = v"
    by (simp add: s4_def s3_def set_model_clearAfterSearch set_value_def emit_def)
  have e: "filter is_optionSelected (emitted s4) =
      filter is_optionSelected (emitted s) @ (if truthy v then [OptionSelected v] else [])"
    by (simp add: s4_def s3_def set_model_optionSelected set_value_def emit_def)
  from sel m b e show ?thesis
    by (auto simp add: clearValue_effect)
qed

theorem autocompleteSelected_effect_witness:
  "boundValue (autocompleteSelected new_component (JObj 0)) = JObj 0
   \<and> currentModel (autocompleteSelected new_component (JObj 0)) = JObj 0
   \<and> currentModel (autocompleteSelected (new_component\<lparr>clearAfterSearch := True\<rparr>) (JObj 0)) = JNull
   \<and> boundValue (autocompleteSelected (new_component\<lparr>clearAfterSearch := True\<rparr>) (JObj 0)) = JStr []
   \<and> filter is_optionSelected (emitted (autocompleteSelected new_component (JObj 0)))
        = [OptionSelected (JObj 0)]
   \<and> filter is_optionSelected (emitted (autocompleteSelected new_component (JNum 0))) = []"
  using autocompleteSelected_effect [of "JObj 0" new_component]
    autocompleteSelected_effect [of "JObj 0" "new_component\<lparr>clearAfterSearch := True\<rparr>"]
    autocompleteSelected_effect [of "JNum 0" new_component]
  by (simp add: new_component_def)

text \<open>C5: for a query shorter than \<open>minChars\<close> and a dispatch that is not forced, neither path
  calls the service (no promise is added) and \<open>requestsInQueue\<close> is unchanged; the local path
  leaves the candidate list as it was; the remote path, with a service configured,
  returns with the list emptied when the query is empty and unchanged otherwise.\<close>

theorem short_query_dispatches_nothing:
  assumes "int (length (inputValue s)) < minChars s"
  shows "pending (state_of (fetch s False)) = pending s
    \<and> requestsInQueue (state_of (fetch s False)) = requestsInQueue s
    \<and> (service s \<noteq> None \<longrightarrow>
         (\<exists>s'. fetch s False = Inr s'
            \<and> autocompleteList s' = (if inputValue s = [] then Some [] else autocompleteList s)))
    \<and> pending (state_of (filterStoredItems env s)) = pending s
    \<and> requestsInQueue (state_of (filterStoredItems env s)) = requestsInQueue s
    \<and> autocompleteList (state_of (filterStoredItems env s)) = autocompleteList s"
  using assms
  by (auto simp add: fetch_def filterStoredItems_def isQueryEmpty_def Let_def split: option.splits)

theorem short_query_dispatches_nothing_witness:
  "int (length ''a'') < minChars remote_component
   \<and> pending (state_of (fetch (remote_component\<lparr>inputValue := ''a'', autocompleteList := Some fruit\<rparr>) False)) = []
   \<and> autocompleteList (state_of (fetch (remote_component\<lparr>inputValue := ''a'', autocompleteList := Some fruit\<rparr>) False)) = Some fruit
   \<and> autocompleteList (state_of (fetch (remote_component\<lparr>inputValue := [], autocompleteList := Some fruit\<rparr>) False)) = Some []
   \<and> autocompleteList (state_of (filterStoredItems sample_env
         (local_component\<lparr>inputValue := ''A'', autocompleteList := Some [JObj 2]\<rparr>))) = Some [JObj 2]"
proof -
  have m: "minChars remote_component = 2" "minChars local_component = 2"
    "service remote_component = Some 0" "pending remote_component = []"
    by (simp_all add: remote_component_def local_component_def new_component_def set_source_def
        saveReturnType_def fruit_def)
  from short_query_dispatches_nothing
      [of "remote_component\<lparr>inputValue := ''a'', autocompleteList := Some fruit\<rparr>" sample_env]
    short_query_dispatches_nothing
      [of "remote_component\<lparr>inputValue := [], autocompleteList := Some fruit\<rparr>" sample_env]
    short_query_dispatches_nothing
      [of "local_component\<lparr>inputValue := ''A'', autocompleteList := Some [JObj 2]\<rparr>" sample_env]
    m
  show ?thesis by auto
qed

text \<open>C6: keystroke handling and focus handling call \<open>fetch\<close> exactly when a service is
  configured and \<open>doPrefetch\<close> is off, and \<open>filterStoredItems\<close> in every other configuration; a
  key press outside the arrow keys makes the same choice, after the clearing of an empty
  input, and an arrow key dispatches nothing.\<close>

theorem dispatch_path_selection:
  "(service s \<noteq> None \<and> \<not> doPrefetch s \<longrightarrow>
      onKeyCallback env s = fetch s False
      \<and> onFocus env s = fetch s False
      \<and> (k < 37 \<or> 40 < k \<longrightarrow>
           onKey env s k = fetch (if inputValue s = [] then clearValue s else s) False))
   \<and> (\<not> (service s \<noteq> None \<and> \<not> doPrefetch s) \<longrightarrow>
      onKeyCallback env s = filterStoredItems env s
      \<and> onFocus env s = filterStoredItems env s
      \<and> (k < 37 \<or> 40 < k \<longrightarrow>
           onKey env s k = filterStoredItems env (if inputValue s = [] then clearValue s else s)))
   \<and> (37 \<le> k \<and> k \<le> 40 \<longrightarrow> onKey env s k = Inr s)"
  by (auto simp add: onKeyCallback_def onFocus_def onKey_def doSearchViaService_def
      clearValue_frame Let_def)

theorem dispatch_path_selection_witness:
  "onKeyCallback sample_env remote_component = fetch remote_component False
   \<and> onFocus sample_env remote_component = fetch remote_component False
   \<and> onKey sample_env remote_component 65 = fetch (clearValue remote_component) False
   \<and> onKeyCallback sample_env prefetching_component
       = filterStoredItems sample_env prefetching_component
   \<and> onFocus sample_env local_component = filterStoredItems sample_env local_component
   \<and> onKey sample_env typing_Ap 65 = filterStoredItems sample_env typing_Ap
   \<and> onKey sample_env typing_Ap 38 = Inr typing_Ap"
  using dispatch_path_selection [of remote_component sample_env 65]
    dispatch_path_selection [of prefetching_component sample_env 65]
    dispatch_path_selection [of local_component sample_env 65]
    dispatch_path_selection [of typing_Ap sample_env 65]
    dispatch_path_selection [of typing_Ap sample_env 38]
  by (simp add: remote_component_def prefetching_component_def local_component_def typing_Ap_def
      new_component_def set_source_def saveReturnType_def fruit_def)

text \<open>C7 as stated fails: after a prefetch that resolves with an empty result,
  \<open>noSuggestions\<close> is true although the last completed fetch was made for no query.\<close>

theorem noSuggestions_nonempty_query_counterexample:
  "noSuggestions (run sample_env remote_component empty_prefetch)
   \<and> last_completion sample_env remote_component empty_prefetch None
       = Some \<lparr>via = ViaPrefetch, asked = None, returned = 0\<rparr>
   \<and> \<not> nothing_found_for_query (last_completion sample_env remote_component empty_prefetch None)"
  by code_simp

text \<open>C7, amended: in every state reached by a run from a component whose flag is off,
  \<open>noSuggestions\<close> is true only when the most recently completed prefetch, fetch or filter
  returned zero candidates, and, for a fetch or a filter, was made for a non-empty query.\<close>

theorem noSuggestions_only_after_empty_completion:
  assumes "\<not> noSuggestions s0" "queries_asked s0"
  shows "noSuggestions (run env s0 evs) \<longrightarrow> nothing_found (last_completion env s0 evs None)"
  using assms run_noSuggestions [of s0 None env evs] by simp

theorem noSuggestions_only_after_empty_completion_witness:
  "\<not> noSuggestions remote_component
   \<and> queries_asked remote_component
   \<and> noSuggestions (run sample_env remote_component nothing_for_xyz)
   \<and> last_completion sample_env remote_component nothing_for_xyz None
       = Some \<lparr>via = ViaFetch, asked = Some ''xyz'', returned = 0\<rparr>
   \<and> nothing_found (last_completion sample_env remote_component nothing_for_xyz None)"
proof -
  have h1: "\<not> noSuggestions remote_component" by code_simp
  have h2: "queries_asked remote_component" by code_simp
  have n: "noSuggestions (run sample_env remote_component nothing_for_xyz)" by code_simp
  have l: "last_completion sample_env remote_component nothing_for_xyz None
      = Some \<lparr>via = ViaFetch, asked = Some ''xyz'', returned = 0\<rparr>" by code_simp
  from noSuggestions_only_after_empty_completion [OF h1 h2, of sample_env nothing_for_xyz] n l h1 h2
  show ?thesis by simp
qed

text \<open>C8 as stated fails: the strings of a first list give the kind \<^verbatim>\<open>string\<close>, and a later
  fetched list of numbers replaces it by \<^verbatim>\<open>number\<close>.\<close>

theorem returnType_first_list_counterexample:
  "returnType (run sample_env new_component (take 1 kind_changing_run)) = Some (typeof (JStr ''a''))
   \<and> returnType (run sample_env new_component kind_changing_run) \<noteq> Some (typeof (JStr ''a''))
   \<and> returnType (run sample_env new_component kind_changing_run) = Some (typeof (JNum 1))"
  by code_simp

text \<open>C8, amended: the cached kind is that of the first element of the latest non-empty
  candidate list obtained, by source assignment, prefetch or fetch; an empty or missing
  list leaves it as it was.\<close>

theorem returnType_follows_latest_list:
  "returnType (saveReturnType s items) =
     (case items of Some (x # rest) \<Rightarrow> Some (typeof x) | _ \<Rightarrow> returnType s)
   \<and> returnType (set_source s (SourceArray xs)) =
     (case xs of x # rest \<Rightarrow> Some (typeof x) | [] \<Rightarrow> returnType s)
   \<and> returnType (prefetch_then s result) =
     (case filterCallback s result of Some (x # rest) \<Rightarrow> Some (typeof x) | _ \<Rightarrow> returnType s)
   \<and> returnType (fetch_then s result) =
     (case filterCallback s result of Some (x # rest) \<Rightarrow> Some (typeof x) | _ \<Rightarrow> returnType s)"
  by (simp add: saveReturnType_def set_source_def prefetch_then_def fetch_then_def Let_def
      split: option.splits list.splits)

text \<open>C9: \<open>prefetch\<close> leaves \<open>requestsInQueue\<close> as it was, at the call (also through
  \<open>ngOnInit\<close>, and when it throws) and when its promise resolves.\<close>

theorem prefetch_leaves_requestsInQueue:
  "requestsInQueue (state_of (prefetch s)) = requestsInQueue s
   \<and> requestsInQueue (prefetch_then s result) = requestsInQueue s
   \<and> (i < length (pending s) \<and> \<not> is_fetch (pending s ! i) \<longrightarrow>
        requestsInQueue (resolve s i result) = requestsInQueue s)
   \<and> requestsInQueue (state_of (ngOnInit s)) = requestsInQueue s"
  by (simp add: prefetch_frame resolve_requestsInQueue prefetch_then_def saveReturnType_frame
      ngOnInit_def Let_def)

theorem prefetch_leaves_requestsInQueue_witness:
  "requestsInQueue (state_of (prefetch remote_component)) = 0
   \<and> pending (state_of (prefetch remote_component)) = [PrefetchCall 0 Map.empty]
   \<and> requestsInQueue (resolve (state_of (prefetch remote_component)) 0 fruit) = 0"
proof -
  have p: "pending (state_of (prefetch remote_component)) = [PrefetchCall 0 Map.empty]"
    by (simp add: prefetch_def remote_component_def new_component_def set_source_def)
  have z: "requestsInQueue remote_component = 0"
    by (simp add: remote_component_def new_component_def set_source_def)
  from prefetch_leaves_requestsInQueue [of remote_component fruit 0]
    prefetch_leaves_requestsInQueue [of "state_of (prefetch remote_component)" fruit 0] p z
  show ?thesis by simp
qed

text \<open>C10 as stated fails: over a list that holds null before a candidate with an empty
  name, \<^verbatim>\<open>eval\<close> of \<^verbatim>\<open>item.name\<close> raises a type error on null, and that error, not the error on
  a wrong \<^verbatim>\<open>displayItem\<close>, is what \<open>filterStoredItems\<close> throws.\<close>

theorem falsy_display_configuration_error_counterexample:
  "displayItem_set null_first_component
   \<and> minChars null_first_component \<le> int (length (inputValue null_first_component))
   \<and> storedItems null_first_component = Some [JNull, JObj 3]
   \<and> viewItem sample_env null_first_component (JObj 3) = Inr (JStr [])
   \<and> \<not> truthy (JStr [])
   \<and> error_of (filterStoredItems sample_env null_first_component) = Some TypeError
   \<and> error_of (filterStoredItems sample_env null_first_component) \<noteq> Some DisplayItemWrong"
  by code_simp

text \<open>C10, amended: with a display strategy configured, a stored candidate that resolves to
  a falsy display value, and every candidate before it resolving to a string (as with any
  display function), \<open>filterStoredItems\<close> on a qualifying query throws the error on a wrong
  \<^verbatim>\<open>displayItem\<close> and leaves the candidate list and \<open>noSuggestions\<close> as they were: the
  candidate is neither filtered out nor kept.\<close>

theorem falsy_display_raises_configuration_error:
  assumes cfg: "displayItem_set s \<or> displayItemFn s \<noteq> None"
    and len: "minChars s \<le> int (length (inputValue s))"
    and items: "storedItems s = Some (pre @ x # post)"
    and x: "viewItem env s x = Inr v" "\<not> truthy v"
    and pre: "\<forall>y \<in> set pre. \<exists>d. viewItem env s y = Inr (JStr d)"
  shows "filterStoredItems env s = Inl (DisplayItemWrong, s\<lparr>query := inputValue s\<rparr>)
    \<and> error_of (filterStoredItems env s) = Some DisplayItemWrong
    \<and> autocompleteList (state_of (filterStoredItems env s)) = autocompleteList s
    \<and> noSuggestions (state_of (filterStoredItems env s)) = noSuggestions s"
proof -
  let ?s1 = "s\<lparr>query := inputValue s\<rparr>"
  have at_x: "filter_callback env ?s1 x = Inl DisplayItemWrong"
    using x by (intro filter_callback_falsy [where v = v]) simp_all
  have before: "\<forall>y \<in> set pre. (\<exists>b. filter_callback env ?s1 y = Inr b)
      \<or> filter_callback env ?s1 y = Inl DisplayItemWrong"
  proof
    fix y assume "y \<in> set pre"
    with pre obtain d where "viewItem env ?s1 y = Inr (JStr d)" by auto
    then show "(\<exists>b. filter_callback env ?s1 y = Inr b)
        \<or> filter_callback env ?s1 y = Inl DisplayItemWrong"
      by (rule filter_callback_of_string)
  qed
  have fi: "filter_items (filter_callback env ?s1) (pre @ x # post) = Inl DisplayItemWrong"
    using before at_x by (rule filter_items_first_raise)
  have "filterStoredItems env s = Inl (DisplayItemWrong, ?s1)"
    using filterStoredItems_qualifying [OF cfg len items, of env] fi by simp
  then show ?thesis by (simp add: error_of_def)
qed

theorem falsy_display_raises_configuration_error_witness:
  "minChars words_component \<le> int (length (inputValue words_component))
   \<and> storedItems words_component = Some ([JStr ''apple''] @ JStr [] # [])
   \<and> viewItem sample_env words_component (JStr []) = Inr (JStr [])
   \<and> error_of (filterStoredItems sample_env words_component) = Some DisplayItemWrong
   \<and> autocompleteList (state_of (filterStoredItems sample_env words_component)) = None"
proof -
  have fields: "displayItemFn words_component = Some text_of"
    "minChars words_component = 2" "inputValue words_component = ''ap''"
    "storedItems words_component = Some ([JStr ''apple''] @ JStr [] # [])"
    "autocompleteList words_component = None"
    by (simp_all add: words_component_def new_component_def set_source_def saveReturnType_def)
  have cfg: "displayItem_set words_component \<or> displayItemFn words_component \<noteq> None"
    by (simp add: fields)
  have len: "minChars words_component \<le> int (length (inputValue words_component))"
    by (simp add: fields)
  have v: "viewItem sample_env words_component (JStr []) = Inr (JStr [])"
    by (simp add: viewItem_def fields)
  have strings: "\<forall>y \<in> set [JStr ''apple''].
      \<exists>d. viewItem sample_env words_component y = Inr (JStr d)"
    by (simp add: viewItem_def fields)
  have falsy: "\<not> truthy (JStr [])" by simp
  from falsy_display_raises_configuration_error [OF cfg len fields(4) v falsy strings]
    fields len v
  show ?thesis by (simp add: error_of_def)
qed

subsection \<open>Scenarios of the specification\<close>

text \<open>Two overlapping fetches, for \<^verbatim>\<open>ab\<close> and then \<^verbatim>\<open>abc\<close>: the promise of the first resolves
  last, and its result is the list shown while the query is \<^verbatim>\<open>abc\<close>.\<close>

theorem stale_result_wins:
  "query (run sample_env remote_component overlapping_fetches) = ''abc''
   \<and> autocompleteList (run sample_env remote_component (take 5 overlapping_fetches)) = Some []
   \<and> autocompleteList (run sample_env remote_component overlapping_fetches) = Some [JStr ''abc'']
   \<and> noSuggestions (run sample_env remote_component (take 5 overlapping_fetches))
   \<and> \<not> noSuggestions (run sample_env remote_component overlapping_fetches)"
  by code_simp

text \<open>The service returns no candidate for \<^verbatim>\<open>xyz\<close>: the list is empty, \<open>noSuggestions\<close> is
  set, and \<open>requestsInQueue\<close>, 1 while the request is pending, is back to 0.\<close>

theorem empty_remote_result_scenario:
  "autocompleteList (run sample_env remote_component nothing_for_xyz) = Some []
   \<and> noSuggestions (run sample_env remote_component nothing_for_xyz)
   \<and> requestsInQueue (run sample_env remote_component nothing_for_xyz) = 0
   \<and> requestsInQueue (run sample_env remote_component (take 2 nothing_for_xyz)) = 1"
  by code_simp

text \<open>\<open>indexOf\<close> finds the query exactly when it is a contiguous part of the string.\<close>

theorem indexOf_finds_sublists:
  "(- 1 < indexOf d q) = (\<exists>before after. d = before @ q @ after)"
  by (simp add: indexOf_sublist sublist_def)

text \<open>Whatever the other candidates are, a stored candidate with a falsy display value makes
  \<open>filterStoredItems\<close> throw on a qualifying query, and no candidate list is set.\<close>

theorem falsy_display_never_filters:
  assumes len: "minChars s \<le> int (length (inputValue s))"
    and items: "storedItems s = Some xs"
    and x: "x \<in> set xs" "viewItem env s x = Inr v" "\<not> truthy v"
  shows "\<exists>e s'. filterStoredItems env s = Inl (e, s')
    \<and> autocompleteList s' = autocompleteList s
    \<and> noSuggestions s' = noSuggestions s
    \<and> ((displayItem_set s \<or> displayItemFn s \<noteq> None)
        \<and> (\<forall>y \<in> set xs. \<exists>d. viewItem env s y = Inr (JStr d))
        \<longrightarrow> e = DisplayItemWrong \<and> s' = s\<lparr>query := inputValue s\<rparr>)"
proof (cases "displayItem_set s \<or> displayItemFn s \<noteq> None")
  case False
  then have "filterStoredItems env s = Inl (DisplayNotProvided, s)"
    by (simp add: filterStoredItems_def)
  with False show ?thesis by simp
next
  case True
  let ?s1 = "s\<lparr>query := inputValue s\<rparr>"
  have "filter_callback env ?s1 x = Inl DisplayItemWrong"
    using x by (intro filter_callback_falsy [where v = v]) simp_all
  from filter_items_raises [of x xs "filter_callback env ?s1" DisplayItemWrong, OF x(1) this]
  obtain e y
    where y: "y \<in> set xs" "filter_callback env ?s1 y = Inl e"
      and fi: "filter_items (filter_callback env ?s1) xs = Inl e" by blast
  have raised: "filterStoredItems env s = Inl (e, ?s1)"
    using filterStoredItems_qualifying [OF True len items, of env] fi by simp
  have "e = DisplayItemWrong" if "\<forall>y \<in> set xs. \<exists>d. viewItem env s y = Inr (JStr d)"
  proof -
    from that y(1) obtain d where "viewItem env ?s1 y = Inr (JStr d)" by auto
    from filter_callback_error_of_string [OF this y(2)] show ?thesis .
  qed
  with raised show ?thesis by auto
qed

theorem falsy_display_never_filters_witness:
  "minChars words_component \<le> int (length (inputValue words_component))
   \<and> storedItems words_component = Some [JStr ''apple'', JStr []]
   \<and> viewItem sample_env words_component (JStr []) = Inr (JStr [])
   \<and> error_of (filterStoredItems sample_env words_component) = Some DisplayItemWrong
   \<and> autocompleteList (state_of (filterStoredItems sample_env words_component)) = None"
proof -
  have fields: "displayItemFn words_component = Some text_of"
    "minChars words_component = 2" "inputValue words_component = ''ap''"
    "storedItems words_component = Some [JStr ''apple'', JStr []]"
    "autocompleteList words_component = None"
    by (simp_all add: words_component_def new_component_def set_source_def saveReturnType_def)
  have len: "minChars words_component \<le> int (length (inputValue words_component))"
    by (simp add: fields)
  have v: "viewItem sample_env words_component (JStr []) = Inr (JStr [])"
    by (simp add: viewItem_def fields)
  have strings: "\<forall>y \<in> set [JStr ''apple'', JStr []].
      \<exists>d. viewItem sample_env words_component y = Inr (JStr d)"
    by (simp add: viewItem_def fields)
  have mem: "JStr [] \<in> set [JStr ''apple'', JStr []]" by simp
  have falsy: "\<not> truthy (JStr [])" by simp
  from falsy_display_never_filters [OF len fields(4) mem v falsy] strings fields len v
  show ?thesis by (auto simp add: error_of_def)
qed

end
